theory Spec2Isabelle
  imports Complex_Main
begin

section \<open>Solfege.ts: chromatic rotation and the syllable lookup\<close>

subsection \<open>The three tables\<close>

definition flatChromatics :: "string list" where
  "flatChromatics =
     [''C'', ''Db'', ''D'', ''Eb'', ''E'', ''F'', ''Gb'', ''G'', ''Ab'', ''A'', ''Bb'', ''B'']"

definition sharpChromatics :: "string list" where
  "sharpChromatics =
     [''C'', ''C#'', ''D'', ''D#'', ''E'', ''F'', ''F#'', ''G'', ''G#'', ''A'', ''A#'', ''B'']"

definition solfegeSyllables :: "string list" where
  "solfegeSyllables =
     [''do'', ''ra'', ''re'', ''me'', ''mi'', ''fa'', ''se'', ''sol'', ''le'', ''la'', ''te'', ''ti'']"

subsection \<open>The JavaScript array and string primitives the module calls\<close>

text \<open>
  \<open>Array.prototype.indexOf\<close>: the first position holding the element, \<open>-1\<close> when there
  is none.
\<close>

fun indexOf :: "'a list \<Rightarrow> 'a \<Rightarrow> int" where
  "indexOf [] x = - 1"
| "indexOf (y # ys) x =
     (if y = x then 0 else (let r = indexOf ys x in if r < 0 then - 1 else r + 1))"

text \<open>\<open>Array.prototype.includes\<close>.\<close>

definition array_includes :: "'a list \<Rightarrow> 'a \<Rightarrow> bool" where
  "array_includes xs x = (x \<in> set xs)"

text \<open>
  Reading \<open>xs[i]\<close>: the element when \<open>i\<close> is a position of the array, \<open>undefined\<close>
  (here \<open>None\<close>) for every other index, \<open>-1\<close> included.
\<close>

definition array_at :: "'a list \<Rightarrow> int \<Rightarrow> 'a option" where
  "array_at xs i = (if 0 \<le> i \<and> i < int (length xs) then Some (xs ! nat i) else None)"

text \<open>The character class \<open>\d\<close> of a regular expression without the unicode flag.\<close>

definition isDigit :: "char \<Rightarrow> bool" where
  "isDigit c = (c \<in> set ''0123456789'')"

text \<open>
  \<open>note.replace(/\d+/g, "")\<close>: every maximal run of digits is replaced by the empty
  string, so exactly the digits disappear and the other characters keep their order.
\<close>

definition cleanNote :: "string \<Rightarrow> string" where
  "cleanNote note = filter (\<lambda>c. \<not> isDigit c) note"

subsection \<open>getChromaticScale and getSolfege\<close>

text \<open>
  Lines 53 to 61 of the module: \<open>startIndex\<close> starts at 0, is the position in the flat
  list when the root is there, otherwise the position in the sharp list when the root is
  there, and stays 0 otherwise.
\<close>

definition startIndex :: "string \<Rightarrow> int" where
  "startIndex rootNote =
     (if array_includes flatChromatics rootNote then indexOf flatChromatics rootNote
      else if array_includes sharpChromatics rootNote then indexOf sharpChromatics rootNote
      else 0)"

text \<open>
  The loop pushes \<open>flatChromatics[(startIndex + i) % flatChromatics.length]\<close> for
  \<open>i\<close> from 0 to \<open>flatChromatics.length - 1\<close>. The index is always a position of the
  list (lemma \<open>scale_index_in_range\<close> below), so the read never yields \<open>undefined\<close>.
\<close>

definition getChromaticScale :: "string \<Rightarrow> string list" where
  "getChromaticScale rootNote =
     map (\<lambda>i. flatChromatics ! nat ((startIndex rootNote + int i) mod int (length flatChromatics)))
         [0 ..< length flatChromatics]"

text \<open>
  \<open>getSolfege\<close> returns \<open>solfegeSyllables[noteIndex]\<close>, which is \<open>undefined\<close> when
  \<open>noteIndex\<close> is \<open>-1\<close>. The function has no other exit: it neither throws nor logs.
\<close>

definition getSolfege :: "string \<Rightarrow> string \<Rightarrow> string option" where
  "getSolfege note rootNote =
     (let chromaticScale = getChromaticScale rootNote;
          noteIndex = indexOf chromaticScale (cleanNote note)
      in array_at solfegeSyllables noteIndex)"

section \<open>App.tsx: the detection loop\<close>

subsection \<open>What the component reads from outside\<close>

text \<open>
  The value \<open>autoCorrelate(buffer, sampleRate)\<close> hands to \<open>updatePitch\<close> is a
  JavaScript number. The tick only tests it for truthiness and compares it with two
  constants, so a number is a real or \<open>NaN\<close>; an infinite value behaves in these tests
  like a real beyond both bounds.
\<close>

datatype estimate = NotANumber | Hz real

text \<open>
  \<open>Note.fromFreq\<close> of the tonal library and \<open>Number.prototype.toFixed(2)\<close> are not
  code of the repository; the model takes them as parameters. \<open>Note.fromFreq\<close> is
  declared to return a string, but what it returns at run time need not be one: for a
  frequency whose MIDI number is negative the library adds an octave number to
  \<open>undefined\<close> and returns the number \<open>NaN\<close>. \<open>toFixed\<close> always returns a
  string.
\<close>

datatype note_value = NoteName string | NotAString

record lib =
  fromFreq :: "real \<Rightarrow> note_value"
  toFixed2 :: "real \<Rightarrow> string"

text \<open>
  \<open>Context.ts\<close> creates the analyser once, with \<open>audioContext.createAnalyser()\<close>: an
  object, so \<open>if (analyser)\<close> always takes its first branch.
\<close>

definition analyser :: bool where
  "analyser = True"

subsection \<open>The call of getSolfege\<close>

text \<open>
  \<open>getSolfege(note, root)\<close> as \<open>updatePitch\<close> calls it, with whatever
  \<open>Note.fromFreq\<close> returned. Line 90 of the module calls \<open>note.replace\<close>; a value
  that is not a string has no such method, and the call throws a \<open>TypeError\<close>.
\<close>

datatype error = TypeError

definition getSolfege_call :: "note_value \<Rightarrow> string \<Rightarrow> error + string option" where
  "getSolfege_call v rootNote =
     (case v of
        NoteName n \<Rightarrow> Inr (getSolfege n rootNote)
      | NotAString \<Rightarrow> Inl TypeError)"

subsection \<open>The state\<close>

text \<open>
  A callback waiting in the browser's animation-frame list. Every render of the component
  creates a new \<open>updatePitch\<close> closing over that render's \<open>root\<close>, and a running
  \<open>updatePitch\<close> re-registers itself, so a registered callback carries the root of the
  render that started its chain.
\<close>

record tick =
  tick_id :: nat
  tick_root :: string

text \<open>
  The five \<open>useState\<close> cells (\<open>note\<close> and \<open>root\<close> are named \<open>note_name\<close> and
  \<open>root_note\<close> here), the two refs, and the part of the browser and of React the
  component acts on: whether the current media stream source (the one
  \<open>mediaStreamSource.current\<close> holds) is connected to the analyser, the
  animation-frame callbacks waiting to run (oldest first), the next animation-frame
  handle, the roots captured by the \<open>getUserMedia\<close> promises that have not settled yet,
  and whether the component is still mounted. \<open>solfege\<close> can hold \<open>undefined\<close>,
  since \<open>setSolfege\<close> receives whatever \<open>getSolfege\<close> returns, and \<open>note\<close> can
  hold a value that is not a string.
\<close>

record app =
  pitch :: string
  note_name :: note_value
  solfege :: "string option"
  root_note :: string
  started :: bool
  mediaStreamSource :: bool
  requestId :: "nat option"
  connected :: bool
  frames :: "tick list"
  nextHandle :: nat
  pendingMedia :: "string list"
  mounted :: bool

definition initial :: app where
  "initial = \<lparr>pitch = ''261.63'', note_name = NoteName ''C'', solfege = Some ''Do'',
     root_note = ''C'', started = False, mediaStreamSource = False, requestId = None,
     connected = False, frames = [], nextHandle = 1, pendingMedia = [], mounted = True\<rparr>"

text \<open>
  How a function of the component ends: it returns, or an exception leaves it. Either
  way the writes it has made stay, so both carry the state.
\<close>

datatype outcome = Returns app | Throws error app

fun state_of :: "outcome \<Rightarrow> app" where
  "state_of (Returns s) = s"
| "state_of (Throws e s) = s"

subsection \<open>The browser's animation-frame list\<close>

text \<open>
  \<open>window.requestAnimationFrame(updatePitch)\<close>, called from a render whose root is
  \<open>r\<close>: the callback joins the list and its handle, a positive integer that grows with
  every request, is returned.
\<close>

definition requestAnimationFrame :: "string \<Rightarrow> app \<Rightarrow> nat \<times> app" where
  "requestAnimationFrame r s =
     (nextHandle s,
      s\<lparr>frames := frames s @ [\<lparr>tick_id = nextHandle s, tick_root = r\<rparr>],
        nextHandle := nextHandle s + 1\<rparr>)"

definition cancelAnimationFrame :: "nat \<Rightarrow> app \<Rightarrow> app" where
  "cancelAnimationFrame h s = s\<lparr>frames := filter (\<lambda>t. tick_id t \<noteq> h) (frames s)\<rparr>"

text \<open>Truthiness of \<open>requestId.current\<close>: \<open>undefined\<close> and 0 are falsy.\<close>

definition truthy_handle :: "nat option \<Rightarrow> bool" where
  "truthy_handle h = (case h of None \<Rightarrow> False | Some n \<Rightarrow> n \<noteq> 0)"

subsection \<open>The functions of the component\<close>

definition startLoop :: "string \<Rightarrow> app \<Rightarrow> app" where
  "startLoop r s =
     (if \<not> truthy_handle (requestId s)
      then (let (h, s') = requestAnimationFrame r s in s'\<lparr>requestId := Some h\<rparr>)
      else s)"

definition stopLoop :: "app \<Rightarrow> app" where
  "stopLoop s =
     (case requestId s of
        None \<Rightarrow> s
      | Some h \<Rightarrow>
          if truthy_handle (Some h) then (cancelAnimationFrame h s)\<lparr>requestId := None\<rparr> else s)"

text \<open>
  \<open>updatePitch\<close> of the render whose root is \<open>r\<close>, when the analysis of the buffer it
  reads gives \<open>p\<close>. Lines 84 to 93 are the block \<open>publish\<close>: \<open>setPitch\<close> and
  \<open>setNote\<close> have been called when \<open>getSolfege\<close> is, so an exception that leaves
  \<open>getSolfege\<close> leaves \<open>updatePitch\<close> with these two writes made, \<open>setSolfege\<close>
  not called and \<open>startLoop\<close> on line 96 not reached: there is no \<open>try\<close> in the
  function.
\<close>

definition publish :: "lib \<Rightarrow> string \<Rightarrow> estimate \<Rightarrow> app \<Rightarrow> outcome" where
  "publish L r p s =
     (case p of
        NotANumber \<Rightarrow> Returns s
      | Hz f \<Rightarrow>
          if f \<noteq> 0 then
            (if f < 7000 \<and> f > - 1
             then (let s1 = s\<lparr>pitch := toFixed2 L f\<rparr>;
                       n = fromFreq L f;
                       s2 = s1\<lparr>note_name := n\<rparr>
                   in case getSolfege_call n r of
                        Inl e \<Rightarrow> Throws e s2
                      | Inr syllable \<Rightarrow> Returns (s2\<lparr>solfege := syllable\<rparr>))
             else Returns s)
          else Returns s)"

definition updatePitch :: "lib \<Rightarrow> string \<Rightarrow> estimate \<Rightarrow> app \<Rightarrow> outcome" where
  "updatePitch L r p s =
     (let s1 = s\<lparr>requestId := None\<rparr> in
      if analyser then
        (case publish L r p s1 of
           Throws e s2 \<Rightarrow> Throws e s2
         | Returns s2 \<Rightarrow> Returns (startLoop r s2))
      else Returns s1)"

text \<open>
  \<open>getUserMedia\<close> only starts the request; its \<open>then\<close> callback runs later, as
  \<open>mediaGranted\<close>, with the functions of the render that called \<open>init\<close>. An
  exception that leaves \<open>updatePitch\<close> there is caught by the \<open>catch\<close> callback, which
  shows an alert.
\<close>

definition getUserMedia :: "app \<Rightarrow> app" where
  "getUserMedia s = s\<lparr>pendingMedia := pendingMedia s @ [root_note s]\<rparr>"

definition mediaGranted :: "lib \<Rightarrow> estimate \<Rightarrow> app \<Rightarrow> app" where
  "mediaGranted L p s =
     (case pendingMedia s of
        [] \<Rightarrow> s
      | r # rs \<Rightarrow>
          (case updatePitch L r p
                  (s\<lparr>pendingMedia := rs, mediaStreamSource := True, connected := True\<rparr>) of
             Returns s' \<Rightarrow> s'
           | Throws e s' \<Rightarrow> s'))"

text \<open>The \<open>catch\<close> callback after a refusal: an alert, and no change to the component.\<close>

definition mediaDenied :: "app \<Rightarrow> app" where
  "mediaDenied s = s\<lparr>pendingMedia := tl (pendingMedia s)\<rparr>"

definition init :: "lib \<Rightarrow> estimate \<Rightarrow> app \<Rightarrow> outcome" where
  "init L p s =
     (let s1 = s\<lparr>started := True\<rparr> in
      if \<not> mediaStreamSource s1 then Returns (getUserMedia s1)
      else updatePitch L (root_note s1) p (s1\<lparr>connected := True\<rparr>))"

definition stopAnalysing :: "app \<Rightarrow> app" where
  "stopAnalysing s =
     (let s1 = stopLoop s;
          s2 = (if mediaStreamSource s1 then s1\<lparr>connected := False\<rparr> else s1)
      in s2\<lparr>started := False\<rparr>)"

text \<open>The effect with dependency list \<open>[root]\<close>, run by the render that follows a change of root.\<close>

definition rootEffect :: "lib \<Rightarrow> estimate \<Rightarrow> app \<Rightarrow> outcome" where
  "rootEffect L p s =
     (if mediaStreamSource s \<and> analyser then updatePitch L (root_note s) p (stopLoop s)
      else Returns s)"

subsection \<open>Events\<close>

text \<open>
  A scale button calls \<open>setRoot\<close>; setting a state cell to the value it holds causes no
  render, so the effect runs only when the root really changes.
\<close>

definition clickRoot :: "lib \<Rightarrow> string \<Rightarrow> estimate \<Rightarrow> app \<Rightarrow> outcome" where
  "clickRoot L r p s =
     (if r = root_note s then Returns s else rootEffect L p (s\<lparr>root_note := r\<rparr>))"

text \<open>The start button: \<open>started ? stopAnalysing() : init()\<close>.\<close>

definition clickButton :: "lib \<Rightarrow> estimate \<Rightarrow> app \<Rightarrow> outcome" where
  "clickButton L p s = (if started s then Returns (stopAnalysing s) else init L p s)"

text \<open>The browser runs the oldest waiting animation-frame callback.\<close>

definition animationFrame :: "lib \<Rightarrow> estimate \<Rightarrow> app \<Rightarrow> outcome" where
  "animationFrame L p s =
     (case frames s of
        [] \<Rightarrow> Returns s
      | t # ts \<Rightarrow> updatePitch L (tick_root t) p (s\<lparr>frames := ts\<rparr>))"

text \<open>
  The state setters of a component that is no longer mounted do nothing: of what a
  callback has written, the state cells are as they were.
\<close>

definition settle :: "app \<Rightarrow> app \<Rightarrow> app" where
  "settle s s' =
     (if mounted s then s'
      else s'\<lparr>pitch := pitch s, note_name := note_name s, solfege := solfege s\<rparr>)"

text \<open>
  Each event that can reach \<open>updatePitch\<close> carries the estimate the analysis gives at
  that moment. What becomes of an exception that leaves a function of the component
  depends on who called it. The browser reports one that leaves an animation-frame
  callback, and React one that leaves a click handler; the writes made stay, and the
  component goes on. One that leaves an effect makes React unmount the component: the
  buttons are gone, while callbacks already registered and promises still run.
\<close>

datatype event =
    ClickButton estimate
  | MediaGranted estimate
  | MediaDenied
  | ClickRoot string estimate
  | AnimationFrame estimate

fun step :: "lib \<Rightarrow> app \<Rightarrow> event \<Rightarrow> app" where
  "step L s (ClickButton p) = (if mounted s then state_of (clickButton L p s) else s)"
| "step L s (MediaGranted p) = settle s (mediaGranted L p s)"
| "step L s MediaDenied = mediaDenied s"
| "step L s (ClickRoot r p) =
     (if mounted s
      then (case clickRoot L r p s of
              Returns s' \<Rightarrow> s'
            | Throws e s' \<Rightarrow> s'\<lparr>mounted := False\<rparr>)
      else s)"
| "step L s (AnimationFrame p) = settle s (state_of (animationFrame L p s))"

definition run :: "lib \<Rightarrow> event list \<Rightarrow> app" where
  "run L es = foldl (step L) initial es"

definition ticks :: "lib \<Rightarrow> estimate list \<Rightarrow> app \<Rightarrow> app" where
  "ticks L ps s = foldl (\<lambda>s' p. state_of (animationFrame L p s')) s ps"

subsection \<open>Notions the statements below use\<close>

text \<open>The published triple.\<close>

definition display :: "app \<Rightarrow> string \<times> note_value \<times> string option" where
  "display s = (pitch s, note_name s, solfege s)"

text \<open>The estimate passes both tests of \<open>updatePitch\<close>: truthy, below 7000 and above -1.\<close>

definition in_range :: "estimate \<Rightarrow> bool" where
  "in_range p = (case p of NotANumber \<Rightarrow> False | Hz f \<Rightarrow> f \<noteq> 0 \<and> - 1 < f \<and> f < 7000)"

text \<open>
  The library has a note name for the estimate, if the estimate is one for which
  \<open>updatePitch\<close> asks.
\<close>

definition named :: "lib \<Rightarrow> estimate \<Rightarrow> bool" where
  "named L p =
     (case p of
        NotANumber \<Rightarrow> True
      | Hz f \<Rightarrow> if in_range (Hz f) then fromFreq L f \<noteq> NotAString else True)"

text \<open>
  What a tick that runs with root \<open>r\<close> on an estimate \<open>p\<close> the library has a name for
  publishes, if anything: the syllable of the note of that very estimate, in the scale of
  \<open>r\<close>.
\<close>

definition publication :: "lib \<Rightarrow> string \<Rightarrow> estimate \<Rightarrow> (string \<times> note_value \<times> string option) option" where
  "publication L r p =
     (case p of
        NotANumber \<Rightarrow> None
      | Hz f \<Rightarrow>
          if in_range (Hz f)
          then (case fromFreq L f of
                  NoteName n \<Rightarrow> Some (toFixed2 L f, NoteName n, getSolfege n r)
                | NotAString \<Rightarrow> None)
          else None)"

text \<open>
  Single flight: at most one callback waits, and it is the one \<open>requestId.current\<close>
  names.
\<close>

definition single_flight :: "app \<Rightarrow> bool" where
  "single_flight s =
     (case frames s of
        [] \<Rightarrow> True
      | [t] \<Rightarrow> requestId s = Some (tick_id t) \<and> 0 < tick_id t
      | _ \<Rightarrow> False)"

text \<open>
  The detection loop is running: the capture source exists and exactly one callback waits,
  registered under the handle \<open>requestId.current\<close> holds.
\<close>

definition running :: "app \<Rightarrow> bool" where
  "running s =
     (mediaStreamSource s \<and>
      (case frames s of
         [t] \<Rightarrow> requestId s = Some (tick_id t) \<and> 0 < tick_id t \<and> tick_id t < nextHandle s
       | _ \<Rightarrow> False))"

text \<open>
  A stand-in for the two library functions, for running the model on concrete inputs,
  with the values the tonal library and \<open>toFixed(2)\<close> give at five frequencies: 440 Hz
  is A4 and 220 Hz is A3; 8.18 Hz has MIDI number 0 and is named C-1; 5 Hz has MIDI
  number -9, for which the library has no pitch class, and it returns \<open>NaN\<close>.
\<close>

definition sample_lib :: lib where
  "sample_lib =
     \<lparr>fromFreq = (\<lambda>f. if f = 440 then NoteName ''A4'' else if f = 220 then NoteName ''A3''
                       else if f = 8.18 then NoteName ''C-1'' else if f = 5 then NotAString
                       else NoteName ''C4''),
      toFixed2 = (\<lambda>f. if f = 440 then ''440.00'' else if f = 220 then ''220.00''
                       else if f = 8.18 then ''8.18'' else if f = 5 then ''5.00''
                       else ''261.63'')\<rparr>"

section \<open>The frequency estimator\<close>

text \<open>
  Modelled from the spec: \<open>PitchDetectionAlgorithms/AutoCorrelate.js\<close>, which
  \<open>App.tsx\<close> imports, is not among the source files. Section 4.1 gives its first step:
  compute the root-mean-square amplitude of the frame and, if it is below a fixed silence
  threshold, return "undetected" immediately. The threshold's value is not given, so it
  is a parameter; so are steps 2 to 7, which run only when step 1 lets the frame through.
\<close>

definition rms :: "real list \<Rightarrow> real" where
  "rms frame = sqrt (sum_list (map (\<lambda>x. x * x) frame) / real (length frame))"

definition estimate_pitch ::
  "real \<Rightarrow> (real list \<Rightarrow> real \<Rightarrow> real option) \<Rightarrow> real list \<Rightarrow> real \<Rightarrow> real option" where
  "estimate_pitch threshold steps_2_to_7 frame sampleRate =
     (if rms frame < threshold then None else steps_2_to_7 frame sampleRate)"

section \<open>Facts about the primitives\<close>

lemma indexOf_ge: "- 1 \<le> indexOf xs x"
  by (induction xs) (auto simp: Let_def)

lemma indexOf_absent: "x \<notin> set xs \<Longrightarrow> indexOf xs x = - 1"
  by (induction xs) (auto simp: Let_def)

lemma indexOf_present:
  "x \<in> set xs \<Longrightarrow> 0 \<le> indexOf xs x \<and> indexOf xs x < int (length xs) \<and> xs ! nat (indexOf xs x) = x"
proof (induction xs)
  case Nil
  then show ?case by simp
next
  case (Cons y ys)
  show ?case
  proof (cases "y = x")
    case True
    then show ?thesis by simp
  next
    case False
    with Cons.prems have mem: "x \<in> set ys" by simp
    from Cons.IH [OF mem] have ih: "0 \<le> indexOf ys x" "indexOf ys x < int (length ys)"
      "ys ! nat (indexOf ys x) = x" by simp_all
    from ih(1) have "nat (indexOf ys x + 1) = Suc (nat (indexOf ys x))" by simp
    with False ih show ?thesis by (simp add: Let_def)
  qed
qed

lemma indexOf_first: "j < nat (indexOf xs x) \<Longrightarrow> xs ! j \<noteq> x"
proof (induction xs arbitrary: j)
  case Nil
  then show ?case by simp
next
  case (Cons y ys)
  show ?case
  proof (cases "y = x")
    case True
    with Cons.prems show ?thesis by simp
  next
    case False
    show ?thesis
    proof (cases j)
      case 0
      with False show ?thesis by simp
    next
      case (Suc k)
      from Cons.prems False have "indexOf ys x \<ge> 0"
        by (simp add: Let_def split: if_splits)
      with Cons.prems False Suc have "k < nat (indexOf ys x)"
        by (simp add: Let_def split: if_splits)
      from Cons.IH [OF this] Suc show ?thesis by simp
    qed
  qed
qed

lemma indexOf_distinct_nth: "distinct xs \<Longrightarrow> i < length xs \<Longrightarrow> indexOf xs (xs ! i) = int i"
proof -
  assume d: "distinct xs" and i: "i < length xs"
  then have mem: "xs ! i \<in> set xs" by simp
  from indexOf_present [OF mem]
  have p: "0 \<le> indexOf xs (xs ! i)" "indexOf xs (xs ! i) < int (length xs)"
    "xs ! nat (indexOf xs (xs ! i)) = xs ! i" by simp_all
  from p(1,2) have "nat (indexOf xs (xs ! i)) < length xs" by simp
  with d i p(3) have "nat (indexOf xs (xs ! i)) = i"
    by (simp add: nth_eq_iff_index_eq)
  with p(1) show ?thesis by simp
qed

lemma length_tables:
  "length flatChromatics = 12" "length sharpChromatics = 12" "length solfegeSyllables = 12"
  by (simp_all add: flatChromatics_def sharpChromatics_def solfegeSyllables_def)

lemma distinct_flatChromatics: "distinct flatChromatics"
  by (simp add: flatChromatics_def)

lemma distinct_sharpChromatics: "distinct sharpChromatics"
  by (simp add: sharpChromatics_def)

lemma startIndex_range: "0 \<le> startIndex rootNote \<and> startIndex rootNote < 12"
proof -
  have f: "array_includes flatChromatics rootNote \<Longrightarrow>
      0 \<le> indexOf flatChromatics rootNote \<and> indexOf flatChromatics rootNote < 12"
    using indexOf_present [of rootNote flatChromatics] by (simp add: array_includes_def length_tables)
  have s: "array_includes sharpChromatics rootNote \<Longrightarrow>
      0 \<le> indexOf sharpChromatics rootNote \<and> indexOf sharpChromatics rootNote < 12"
    using indexOf_present [of rootNote sharpChromatics] by (simp add: array_includes_def length_tables)
  show ?thesis using f s by (simp add: startIndex_def)
qed

lemma scale_index_in_range:
  "nat ((startIndex rootNote + int i) mod int (length flatChromatics)) < length flatChromatics"
  by (simp add: length_tables nat_less_iff)

lemma getChromaticScale_rotate:
  "getChromaticScale rootNote = rotate (nat (startIndex rootNote)) flatChromatics"
proof (rule nth_equalityI)
  show "length (getChromaticScale rootNote) = length (rotate (nat (startIndex rootNote)) flatChromatics)"
    by (simp add: getChromaticScale_def)
next
  fix i
  assume "i < length (getChromaticScale rootNote)"
  then have i: "i < length flatChromatics" by (simp add: getChromaticScale_def)
  from startIndex_range have "0 \<le> startIndex rootNote" by simp
  then have "nat ((startIndex rootNote + int i) mod int (length flatChromatics))
      = (nat (startIndex rootNote) + i) mod length flatChromatics"
    by (simp add: nat_mod_distrib nat_add_distrib)
  with i show "getChromaticScale rootNote ! i = rotate (nat (startIndex rootNote)) flatChromatics ! i"
    by (simp add: getChromaticScale_def nth_rotate add.commute)
qed

lemma length_getChromaticScale: "length (getChromaticScale rootNote) = 12"
  by (simp add: getChromaticScale_def length_tables)

lemma set_getChromaticScale: "set (getChromaticScale rootNote) = set flatChromatics"
  by (simp add: getChromaticScale_rotate)


lemma getSolfege_found:
  assumes "cleanNote note \<in> set (getChromaticScale rootNote)"
  shows "\<exists>i<12. getChromaticScale rootNote ! i = cleanNote note \<and>
            indexOf (getChromaticScale rootNote) (cleanNote note) = int i \<and>
            (\<forall>j<i. getChromaticScale rootNote ! j \<noteq> cleanNote note) \<and>
            getSolfege note rootNote = Some (solfegeSyllables ! i)"
proof -
  define scale where "scale = getChromaticScale rootNote"
  define c where "c = cleanNote note"
  define k where "k = indexOf scale c"
  have len: "length scale = 12" by (simp add: scale_def length_getChromaticScale)
  from assms have mem: "c \<in> set scale" by (simp add: scale_def c_def)
  from indexOf_present [OF mem] len
  have k0: "0 \<le> k" and k12: "k < 12" and kth: "scale ! nat k = c"
    by (simp_all add: k_def)
  have first: "\<forall>j<nat k. scale ! j \<noteq> c"
    unfolding k_def by (rule allI, rule impI, rule indexOf_first)
  have sol: "getSolfege note rootNote = array_at solfegeSyllables k"
    by (simp add: getSolfege_def scale_def c_def k_def)
  from k0 k12 have "array_at solfegeSyllables k = Some (solfegeSyllables ! nat k)"
    by (simp add: array_at_def length_tables)
  with sol have res: "getSolfege note rootNote = Some (solfegeSyllables ! nat k)" by simp
  from k0 k12 have lt: "nat k < 12" by simp
  from k0 have ki: "k = int (nat k)" by simp
  have "scale ! nat k = c \<and> indexOf scale c = int (nat k) \<and>
        (\<forall>j<nat k. scale ! j \<noteq> c) \<and> getSolfege note rootNote = Some (solfegeSyllables ! nat k)"
    using kth ki first res unfolding k_def by blast
  with lt show ?thesis unfolding scale_def c_def by blast
qed

lemma getSolfege_absent:
  assumes "cleanNote note \<notin> set (getChromaticScale rootNote)"
  shows "indexOf (getChromaticScale rootNote) (cleanNote note) = - 1 \<and> getSolfege note rootNote = None"
  using indexOf_absent [OF assms] by (simp add: getSolfege_def array_at_def)

lemma startIndex_flat: "i < 12 \<Longrightarrow> startIndex (flatChromatics ! i) = int i"
  using indexOf_distinct_nth [OF distinct_flatChromatics, of i]
  by (simp add: startIndex_def array_includes_def length_tables)

lemma startIndex_on_sharps:
  "list_all (\<lambda>x. startIndex x = indexOf sharpChromatics x) sharpChromatics"
  by code_simp

lemma startIndex_sharp: "i < 12 \<Longrightarrow> startIndex (sharpChromatics ! i) = int i"
proof -
  assume i: "i < 12"
  then have "sharpChromatics ! i \<in> set sharpChromatics" by (simp add: length_tables)
  with startIndex_on_sharps
  have "startIndex (sharpChromatics ! i) = indexOf sharpChromatics (sharpChromatics ! i)"
    by (simp add: list_all_iff)
  with i indexOf_distinct_nth [OF distinct_sharpChromatics, of i] show ?thesis
    by (simp add: length_tables)
qed

lemma startIndex_unknown:
  "rootNote \<notin> set flatChromatics \<Longrightarrow> rootNote \<notin> set sharpChromatics \<Longrightarrow> startIndex rootNote = 0"
  by (simp add: startIndex_def array_includes_def)


lemma sharps_absent_from_scale:
  "x \<in> set sharpChromatics \<Longrightarrow> x \<notin> set flatChromatics \<Longrightarrow> x \<notin> set (getChromaticScale rootNote)"
  by (simp add: set_getChromaticScale)

section \<open>The scale and the syllable lookup\<close>



text \<open>
  Claim C2. For a root of the flat list, \<open>getChromaticScale\<close> returns twelve elements,
  the \<open>i\<close>-th being the flat list at \<open>(rootIndex + i) mod 12\<close>: the flat list rotated
  to the root, nothing sorted or dropped. A root spelled with a sharp gives the same
  scale as the flat name at the same position. The scales of C and D are as listed.
\<close>

theorem C2_getChromaticScale_rotation:
  "(rootNote \<in> set flatChromatics \<longrightarrow>
      length (getChromaticScale rootNote) = 12 \<and>
      0 \<le> indexOf flatChromatics rootNote \<and>
      (\<forall>i<12. getChromaticScale rootNote ! i =
               flatChromatics ! ((nat (indexOf flatChromatics rootNote) + i) mod 12)) \<and>
      getChromaticScale rootNote = rotate (nat (indexOf flatChromatics rootNote)) flatChromatics \<and>
      getChromaticScale rootNote ! 0 = rootNote)
   \<and> (k < 12 \<longrightarrow> getChromaticScale (sharpChromatics ! k) = getChromaticScale (flatChromatics ! k))
   \<and> getChromaticScale ''C'' =
       [''C'', ''Db'', ''D'', ''Eb'', ''E'', ''F'', ''Gb'', ''G'', ''Ab'', ''A'', ''Bb'', ''B'']
   \<and> getChromaticScale ''D'' =
       [''D'', ''Eb'', ''E'', ''F'', ''Gb'', ''G'', ''Ab'', ''A'', ''Bb'', ''B'', ''C'', ''Db'']"
proof -
  have flat: "length (getChromaticScale rootNote) = 12 \<and>
      0 \<le> indexOf flatChromatics rootNote \<and>
      (\<forall>i<12. getChromaticScale rootNote ! i =
               flatChromatics ! ((nat (indexOf flatChromatics rootNote) + i) mod 12)) \<and>
      getChromaticScale rootNote = rotate (nat (indexOf flatChromatics rootNote)) flatChromatics \<and>
      getChromaticScale rootNote ! 0 = rootNote"
    if mem: "rootNote \<in> set flatChromatics"
  proof -
    from mem have si: "startIndex rootNote = indexOf flatChromatics rootNote"
      by (simp add: startIndex_def array_includes_def)
    from indexOf_present [OF mem]
    have p: "0 \<le> indexOf flatChromatics rootNote" "indexOf flatChromatics rootNote < 12"
      "flatChromatics ! nat (indexOf flatChromatics rootNote) = rootNote"
      by (simp_all add: length_tables)
    have rot: "getChromaticScale rootNote = rotate (nat (indexOf flatChromatics rootNote)) flatChromatics"
      using getChromaticScale_rotate [of rootNote] si by simp
    have nth: "\<forall>i<12. getChromaticScale rootNote ! i =
               flatChromatics ! ((nat (indexOf flatChromatics rootNote) + i) mod 12)"
      by (simp add: rot nth_rotate length_tables add.commute)
    from p(1,2) have "nat (indexOf flatChromatics rootNote) mod 12 = nat (indexOf flatChromatics rootNote)"
      by simp
    with nth p(3) have hd: "getChromaticScale rootNote ! 0 = rootNote" by simp
    from length_getChromaticScale p(1) nth rot hd show ?thesis by blast
  qed
  have sharp: "getChromaticScale (sharpChromatics ! k) = getChromaticScale (flatChromatics ! k)"
    if "k < 12"
    using that by (simp add: getChromaticScale_rotate startIndex_sharp startIndex_flat)
  have c: "getChromaticScale ''C'' =
       [''C'', ''Db'', ''D'', ''Eb'', ''E'', ''F'', ''Gb'', ''G'', ''Ab'', ''A'', ''Bb'', ''B'']"
    by code_simp
  have d: "getChromaticScale ''D'' =
       [''D'', ''Eb'', ''E'', ''F'', ''Gb'', ''G'', ''Ab'', ''A'', ''Bb'', ''B'', ''C'', ''Db'']"
    by code_simp
  from flat sharp c d show ?thesis by blast
qed

theorem C2_getChromaticScale_witness:
  "''Ab'' \<in> set flatChromatics \<and> (6::nat) < 12 \<and>
   getChromaticScale ''Ab'' ! 0 = ''Ab'' \<and>
   getChromaticScale ''Ab'' = rotate (nat (indexOf flatChromatics ''Ab'')) flatChromatics \<and>
   getChromaticScale (sharpChromatics ! 6) = getChromaticScale (flatChromatics ! 6)"
proof -
  have m: "''Ab'' \<in> set flatChromatics" by code_simp
  have k: "(6::nat) < 12" by simp
  from C2_getChromaticScale_rotation [of "''Ab''" 6] m k show ?thesis by blast
qed

text \<open>
  Claim C9. Only the root is matched against the sharp list; the note is looked up as it
  is. For a note whose pitch class is spelled with a sharp, or is otherwise absent from
  the rotated flat scale, \<open>indexOf\<close> yields -1 and \<open>getSolfege\<close> returns
  \<open>undefined\<close>, whatever the root, although a sharp spelling of the root is located in
  the sharp list.
\<close>

theorem C9_getSolfege_note_not_normalised:
  "((cleanNote note \<in> set sharpChromatics \<and> cleanNote note \<notin> set flatChromatics)
      \<or> cleanNote note \<notin> set (getChromaticScale rootNote) \<longrightarrow>
      indexOf (getChromaticScale rootNote) (cleanNote note) = - 1 \<and>
      getSolfege note rootNote = None)
   \<and> (k < 12 \<longrightarrow> startIndex (sharpChromatics ! k) = int k)"
proof -
  have "cleanNote note \<notin> set (getChromaticScale rootNote)"
    if "cleanNote note \<in> set sharpChromatics \<and> cleanNote note \<notin> set flatChromatics"
    using that sharps_absent_from_scale by blast
  then show ?thesis using getSolfege_absent [of "note" rootNote] startIndex_sharp [of k] by blast
qed

theorem C9_getSolfege_witness:
  "cleanNote ''C#4'' \<in> set sharpChromatics \<and> cleanNote ''C#4'' \<notin> set flatChromatics \<and>
   (1::nat) < 12 \<and>
   indexOf (getChromaticScale ''C#'') (cleanNote ''C#4'') = - 1 \<and>
   getSolfege ''C#4'' ''C#'' = None \<and>
   startIndex (sharpChromatics ! 1) = 1"
proof -
  have a: "cleanNote ''C#4'' \<in> set sharpChromatics" by code_simp
  have b: "cleanNote ''C#4'' \<notin> set flatChromatics" by code_simp
  have k: "(1::nat) < 12" by simp
  from C9_getSolfege_note_not_normalised [of "''C#4''" "''C#''" 1] a b k show ?thesis by simp
qed

text \<open>
  Claim C10. \<open>getChromaticScale\<close> returns a scale for every string: for a root that is in
  neither list the start index stays 0 and the result is the flat list itself, the scale
  of C, twelve elements long.
\<close>

theorem C10_getChromaticScale_unknown_root:
  "rootNote \<notin> set flatChromatics \<Longrightarrow> rootNote \<notin> set sharpChromatics \<Longrightarrow>
   startIndex rootNote = 0 \<and>
   getChromaticScale rootNote = flatChromatics \<and>
   getChromaticScale rootNote = getChromaticScale ''C'' \<and>
   length (getChromaticScale rootNote) = 12"
proof -
  assume a: "rootNote \<notin> set flatChromatics" "rootNote \<notin> set sharpChromatics"
  then have z: "startIndex rootNote = 0" by (rule startIndex_unknown)
  have c: "startIndex ''C'' = 0" by code_simp
  from z c show ?thesis
    by (simp add: getChromaticScale_rotate length_tables)
qed

theorem C10_getChromaticScale_witness:
  "''H'' \<notin> set flatChromatics \<and> ''H'' \<notin> set sharpChromatics \<and>
   getChromaticScale ''H'' =
     [''C'', ''Db'', ''D'', ''Eb'', ''E'', ''F'', ''Gb'', ''G'', ''Ab'', ''A'', ''Bb'', ''B'']"
proof -
  have a: "''H'' \<notin> set flatChromatics" by code_simp
  have b: "''H'' \<notin> set sharpChromatics" by code_simp
  from C10_getChromaticScale_unknown_root [OF a b] a b show ?thesis
    by (simp add: flatChromatics_def)
qed

section \<open>The detection loop\<close>

lemmas loop_defs = updatePitch_def publish_def getSolfege_call_def analyser_def startLoop_def
  requestAnimationFrame_def truthy_handle_def Let_def

subsection \<open>What one run of updatePitch does\<close>

lemma updatePitch_out_of_range:
  "\<not> in_range p \<Longrightarrow>
   updatePitch L r p s =
     Returns (s\<lparr>requestId := Some (nextHandle s),
               frames := frames s @ [\<lparr>tick_id = nextHandle s, tick_root = r\<rparr>],
               nextHandle := nextHandle s + 1\<rparr>)"
  by (auto simp: loop_defs in_range_def split: estimate.splits)

lemma updatePitch_named_note:
  "in_range (Hz f) \<Longrightarrow> fromFreq L f = NoteName n \<Longrightarrow>
   updatePitch L r (Hz f) s =
     Returns (s\<lparr>requestId := Some (nextHandle s), pitch := toFixed2 L f,
               note_name := NoteName n, solfege := getSolfege n r,
               frames := frames s @ [\<lparr>tick_id = nextHandle s, tick_root = r\<rparr>],
               nextHandle := nextHandle s + 1\<rparr>)"
  by (simp add: loop_defs in_range_def)

lemma updatePitch_unnamed_note:
  "in_range (Hz f) \<Longrightarrow> fromFreq L f = NotAString \<Longrightarrow>
   updatePitch L r (Hz f) s =
     Throws TypeError (s\<lparr>requestId := None, pitch := toFixed2 L f, note_name := NotAString\<rparr>)"
  by (simp add: loop_defs in_range_def)

text \<open>
  The effect of \<open>updatePitch\<close>, case by case. For an estimate that fails one of the
  tests (not a number, zero, -1 or less, 7000 or more) it returns, the three published
  fields keep their values and one callback is requested. For an estimate that passes
  them and has a note name it returns, the three fields are those computed from the
  estimate and one callback is requested. For an estimate that passes them and has no
  note name the exception of \<open>getSolfege\<close> leaves it: pitch and note are written, the
  syllable is not, and no callback is requested.
\<close>

lemma updatePitch_effect:
  "(\<not> in_range p \<longrightarrow>
      (\<exists>s'. updatePitch L r p s = Returns s' \<and> display s' = display s \<and>
            requestId s' = Some (nextHandle s) \<and>
            frames s' = frames s @ [\<lparr>tick_id = nextHandle s, tick_root = r\<rparr>])) \<and>
   (in_range (Hz f) \<and> fromFreq L f = NoteName n \<longrightarrow>
      (\<exists>s'. updatePitch L r (Hz f) s = Returns s' \<and>
            display s' = (toFixed2 L f, NoteName n, getSolfege n r) \<and>
            requestId s' = Some (nextHandle s) \<and>
            frames s' = frames s @ [\<lparr>tick_id = nextHandle s, tick_root = r\<rparr>])) \<and>
   (in_range (Hz f) \<and> fromFreq L f = NotAString \<longrightarrow>
      (\<exists>s'. updatePitch L r (Hz f) s = Throws TypeError s' \<and>
            display s' = (toFixed2 L f, NotAString, solfege s) \<and>
            requestId s' = None \<and> frames s' = frames s))"
  by (simp add: updatePitch_out_of_range updatePitch_named_note updatePitch_unnamed_note
      display_def)

lemma updatePitch_named:
  assumes "named L p"
  shows "updatePitch L r p s = Returns (state_of (updatePitch L r p s))"
    and "frames (state_of (updatePitch L r p s)) =
           frames s @ [\<lparr>tick_id = nextHandle s, tick_root = r\<rparr>]"
    and "requestId (state_of (updatePitch L r p s)) = Some (nextHandle s)"
    and "nextHandle (state_of (updatePitch L r p s)) = nextHandle s + 1"
    and "root_note (state_of (updatePitch L r p s)) = root_note s"
    and "mediaStreamSource (state_of (updatePitch L r p s)) = mediaStreamSource s"
    and "display (state_of (updatePitch L r p s)) =
           (case publication L r p of Some d \<Rightarrow> d | None \<Rightarrow> display s)"
proof -
  consider (out) "\<not> in_range p" | (name) f n where "p = Hz f" "in_range (Hz f)" "fromFreq L f = NoteName n"
  proof (cases "in_range p")
    case False
    then show ?thesis by (rule out)
  next
    case True
    then obtain f where f: "p = Hz f" by (cases p) (simp_all add: in_range_def)
    with assms True obtain n where "fromFreq L f = NoteName n"
      by (cases "fromFreq L f") (simp_all add: named_def)
    with f True show ?thesis by (auto intro: name)
  qed
  then have all: "updatePitch L r p s = Returns (state_of (updatePitch L r p s)) \<and>
      frames (state_of (updatePitch L r p s)) =
           frames s @ [\<lparr>tick_id = nextHandle s, tick_root = r\<rparr>] \<and>
      requestId (state_of (updatePitch L r p s)) = Some (nextHandle s) \<and>
      nextHandle (state_of (updatePitch L r p s)) = nextHandle s + 1 \<and>
      root_note (state_of (updatePitch L r p s)) = root_note s \<and>
      mediaStreamSource (state_of (updatePitch L r p s)) = mediaStreamSource s \<and>
      display (state_of (updatePitch L r p s)) =
           (case publication L r p of Some d \<Rightarrow> d | None \<Rightarrow> display s)"
  proof cases
    case out
    then have "publication L r p = None"
      by (cases p) (simp_all add: publication_def)
    with out show ?thesis by (simp add: updatePitch_out_of_range display_def)
  next
    case name
    then have "publication L r p = Some (toFixed2 L f, NoteName n, getSolfege n r)"
      by (simp add: publication_def)
    with name show ?thesis by (simp add: updatePitch_named_note display_def)
  qed
  from all show "updatePitch L r p s = Returns (state_of (updatePitch L r p s))" by blast
  from all show "frames (state_of (updatePitch L r p s)) =
           frames s @ [\<lparr>tick_id = nextHandle s, tick_root = r\<rparr>]" by blast
  from all show "requestId (state_of (updatePitch L r p s)) = Some (nextHandle s)" by blast
  from all show "nextHandle (state_of (updatePitch L r p s)) = nextHandle s + 1" by blast
  from all show "root_note (state_of (updatePitch L r p s)) = root_note s" by blast
  from all show "mediaStreamSource (state_of (updatePitch L r p s)) = mediaStreamSource s" by blast
  from all show "display (state_of (updatePitch L r p s)) =
           (case publication L r p of Some d \<Rightarrow> d | None \<Rightarrow> display s)" by blast
qed

subsection \<open>stopLoop\<close>

lemma stopLoop_fields:
  "pitch (stopLoop s) = pitch s" "note_name (stopLoop s) = note_name s"
  "solfege (stopLoop s) = solfege s" "root_note (stopLoop s) = root_note s"
  "started (stopLoop s) = started s" "mediaStreamSource (stopLoop s) = mediaStreamSource s"
  "connected (stopLoop s) = connected s" "nextHandle (stopLoop s) = nextHandle s"
  "pendingMedia (stopLoop s) = pendingMedia s"
  by (simp_all add: stopLoop_def cancelAnimationFrame_def truthy_handle_def split: option.split)

lemma requestId_stopLoop: "\<not> truthy_handle (requestId (stopLoop s))"
  by (simp add: stopLoop_def cancelAnimationFrame_def truthy_handle_def split: option.split)

lemma frames_stopLoop:
  "frames (stopLoop s) =
     (if truthy_handle (requestId s)
      then filter (\<lambda>t. Some (tick_id t) \<noteq> requestId s) (frames s) else frames s)"
  by (auto simp: stopLoop_def cancelAnimationFrame_def truthy_handle_def split: option.split
           intro: filter_cong)

lemma frames_stopLoop_single_flight: "single_flight s \<Longrightarrow> frames (stopLoop s) = []"
proof -
  assume sf: "single_flight s"
  show ?thesis
  proof (cases "frames s")
    case Nil
    then show ?thesis by (simp add: frames_stopLoop)
  next
    case (Cons t ts)
    with sf have "ts = []" "requestId s = Some (tick_id t)" "0 < tick_id t"
      by (simp_all add: single_flight_def split: list.splits)
    with Cons show ?thesis by (simp add: frames_stopLoop truthy_handle_def)
  qed
qed

subsection \<open>A change of root within single flight\<close>

lemma running_single_flight: "running s \<Longrightarrow> single_flight s"
  by (auto simp: running_def single_flight_def split: list.splits)

lemma animationFrame_running:
  assumes run: "running s" and bound: "\<forall>t \<in> set (frames s). tick_root t = r"
    and nm: "named L p"
  shows "running (state_of (animationFrame L p s)) \<and>
         (\<forall>t \<in> set (frames (state_of (animationFrame L p s))). tick_root t = r) \<and>
         root_note (state_of (animationFrame L p s)) = root_note s \<and>
         display (state_of (animationFrame L p s)) =
           (case publication L r p of Some d \<Rightarrow> d | None \<Rightarrow> display s)"
proof -
  from run obtain t where t: "frames s = [t]" "tick_id t < nextHandle s" "mediaStreamSource s"
    by (auto simp: running_def split: list.splits)
  from t(1) bound have r: "tick_root t = r" by simp
  from t(1) have af: "animationFrame L p s = updatePitch L r p (s\<lparr>frames := []\<rparr>)"
    by (simp add: animationFrame_def r)
  have d: "display (s\<lparr>frames := []\<rparr>) = display s" by (simp add: display_def)
  note up = updatePitch_named [OF nm, of r "s\<lparr>frames := []\<rparr>"]
  from t(2,3) show ?thesis
    by (simp add: af running_def up(2-7) d split: option.split)
qed

lemma ticks_running:
  "running s \<Longrightarrow> \<forall>t \<in> set (frames s). tick_root t = r \<Longrightarrow> \<forall>p \<in> set ps. named L p \<Longrightarrow>
   running (ticks L ps s) \<and>
   (\<forall>t \<in> set (frames (ticks L ps s)). tick_root t = r) \<and>
   root_note (ticks L ps s) = root_note s \<and>
   display (ticks L ps s) =
     foldl (\<lambda>d p. case publication L r p of Some d' \<Rightarrow> d' | None \<Rightarrow> d) (display s) ps"
proof (induction ps arbitrary: s)
  case Nil
  then show ?case by (simp add: ticks_def)
next
  case (Cons p ps)
  from Cons.prems(3) have np: "named L p" and nps: "\<forall>q \<in> set ps. named L q" by simp_all
  from animationFrame_running [OF Cons.prems(1,2) np]
  have st: "running (state_of (animationFrame L p s))"
    "\<forall>t \<in> set (frames (state_of (animationFrame L p s))). tick_root t = r"
    "root_note (state_of (animationFrame L p s)) = root_note s"
    "display (state_of (animationFrame L p s)) =
       (case publication L r p of Some d \<Rightarrow> d | None \<Rightarrow> display s)"
    by simp_all
  have unf: "ticks L (p # ps) s = ticks L ps (state_of (animationFrame L p s))"
    by (simp add: ticks_def)
  from Cons.IH [OF st(1,2) nps] st(3,4) show ?case by (simp add: unf)
qed

lemma clickRoot_running:
  assumes run: "running s" and ch: "r \<noteq> root_note s" and nm: "named L p"
  shows "frames (state_of (clickRoot L r p s)) = [\<lparr>tick_id = nextHandle s, tick_root = r\<rparr>]"
    and "requestId (state_of (clickRoot L r p s)) = Some (nextHandle s)"
    and "root_note (state_of (clickRoot L r p s)) = r"
    and "display (state_of (clickRoot L r p s)) =
           (case publication L r p of Some d \<Rightarrow> d | None \<Rightarrow> display s)"
    and "running (state_of (clickRoot L r p s))"
    and "\<forall>t \<in> set (frames s). t \<notin> set (frames (state_of (clickRoot L r p s)))"
    and "clickRoot L r p s = Returns (state_of (clickRoot L r p s))"
proof -
  let ?s1 = "s\<lparr>root_note := r\<rparr>"
  from run have mss: "mediaStreamSource s" by (simp add: running_def)
  from run obtain t where t: "frames s = [t]" "tick_id t < nextHandle s"
    by (auto simp: running_def split: list.splits)
  have "running ?s1" using run by (auto simp: running_def split: list.splits)
  then have sf: "single_flight ?s1" by (rule running_single_flight)
  have cr: "clickRoot L r p s = updatePitch L r p (stopLoop ?s1)"
    using ch mss by (simp add: clickRoot_def rootEffect_def analyser_def stopLoop_fields)
  have fr: "frames (stopLoop ?s1) = []" using sf by (rule frames_stopLoop_single_flight)
  have d: "display (stopLoop ?s1) = display s" by (simp add: display_def stopLoop_fields)
  note up = updatePitch_named [OF nm, of r "stopLoop ?s1"]
  show f: "frames (state_of (clickRoot L r p s)) = [\<lparr>tick_id = nextHandle s, tick_root = r\<rparr>]"
    by (simp add: cr up(2) fr stopLoop_fields)
  show "requestId (state_of (clickRoot L r p s)) = Some (nextHandle s)"
    by (simp add: cr up(3) stopLoop_fields)
  show "root_note (state_of (clickRoot L r p s)) = r"
    by (simp add: cr up(5) stopLoop_fields)
  show "display (state_of (clickRoot L r p s)) =
          (case publication L r p of Some d \<Rightarrow> d | None \<Rightarrow> display s)"
    by (simp add: cr up(7) d split: option.split)
  from t(2) mss show "running (state_of (clickRoot L r p s))"
    by (simp add: running_def cr up(2-6) fr stopLoop_fields)
  from t show "\<forall>t \<in> set (frames s). t \<notin> set (frames (state_of (clickRoot L r p s)))"
    by (auto simp: f)
  show "clickRoot L r p s = Returns (state_of (clickRoot L r p s))"
    using up(1) by (simp add: cr)
qed

text \<open>
  Within single flight, and for estimates the library has note names for, a change of
  root restarts the loop cleanly: the waiting callback is cancelled and a fresh cycle
  runs at once with the new root; the only callback waiting afterwards is a new one bound
  to the new root; what that cycle publishes is the syllable of the note it has just read
  in the scale of the new root, and so is every publication of every later tick.
\<close>

lemma root_change_restarts_single_loop:
  assumes "running s" and "r \<noteq> root_note s" and "named L p"
  shows "(\<forall>t \<in> set (frames s). t \<notin> set (frames (state_of (clickRoot L r p s)))) \<and>
         clickRoot L r p s = Returns (state_of (clickRoot L r p s)) \<and>
         frames (state_of (clickRoot L r p s)) = [\<lparr>tick_id = nextHandle s, tick_root = r\<rparr>] \<and>
         requestId (state_of (clickRoot L r p s)) = Some (nextHandle s) \<and>
         root_note (state_of (clickRoot L r p s)) = r \<and>
         display (state_of (clickRoot L r p s)) =
           (case publication L r p of Some d \<Rightarrow> d | None \<Rightarrow> display s) \<and>
         (\<forall>ps. (\<forall>q \<in> set ps. named L q) \<longrightarrow>
               running (ticks L ps (state_of (clickRoot L r p s))) \<and>
               (\<forall>t \<in> set (frames (ticks L ps (state_of (clickRoot L r p s)))). tick_root t = r) \<and>
               root_note (ticks L ps (state_of (clickRoot L r p s))) = r \<and>
               display (ticks L ps (state_of (clickRoot L r p s))) =
                 foldl (\<lambda>d q. case publication L r q of Some d' \<Rightarrow> d' | None \<Rightarrow> d)
                       (display (state_of (clickRoot L r p s))) ps)"
proof -
  note cr = clickRoot_running [OF assms, of]
  have bound: "\<forall>t \<in> set (frames (state_of (clickRoot L r p s))). tick_root t = r"
    by (simp add: cr(1))
  have later: "running (ticks L ps (state_of (clickRoot L r p s))) \<and>
               (\<forall>t \<in> set (frames (ticks L ps (state_of (clickRoot L r p s)))). tick_root t = r) \<and>
               root_note (ticks L ps (state_of (clickRoot L r p s))) = r \<and>
               display (ticks L ps (state_of (clickRoot L r p s))) =
                 foldl (\<lambda>d q. case publication L r q of Some d' \<Rightarrow> d' | None \<Rightarrow> d)
                       (display (state_of (clickRoot L r p s))) ps"
    if "\<forall>q \<in> set ps. named L q" for ps
    using ticks_running [OF cr(5) bound that] cr(3) by simp
  from cr(6) cr(7) cr(1) cr(2) cr(3) cr(4) later show ?thesis by blast
qed

subsection \<open>Concrete runs\<close>

lemmas event_defs = run_def initial_def clickButton_def init_def getUserMedia_def
  mediaGranted_def mediaDenied_def stopAnalysing_def stopLoop_def cancelAnimationFrame_def
  clickRoot_def rootEffect_def animationFrame_def settle_def sample_lib_def

lemma run_started:
  "run sample_lib [ClickButton NotANumber, MediaGranted (Hz 440)] =
     \<lparr>pitch = ''440.00'', note_name = NoteName ''A4'', solfege = getSolfege ''A4'' ''C'',
      root_note = ''C'', started = True, mediaStreamSource = True, requestId = Some 1,
      connected = True, frames = [\<lparr>tick_id = 1, tick_root = ''C''\<rparr>], nextHandle = 2,
      pendingMedia = [], mounted = True\<rparr>"
  by (simp add: event_defs loop_defs)

lemma solfege_examples:
  "getSolfege ''A4'' ''C'' = Some ''la''" "getSolfege ''A4'' ''D'' = Some ''sol''"
  "getSolfege ''A3'' ''D'' = Some ''sol''" "getSolfege ''A4'' ''E'' = Some ''fa''"
  by code_simp+

lemma named_examples:
  "named sample_lib (Hz 440)" "named sample_lib (Hz 220)" "named sample_lib NotANumber"
  by (simp_all add: named_def in_range_def sample_lib_def)

lemma root_change_restarts_single_loop_example:
  "running (run sample_lib [ClickButton NotANumber, MediaGranted (Hz 440)]) \<and>
   ''D'' \<noteq> root_note (run sample_lib [ClickButton NotANumber, MediaGranted (Hz 440)]) \<and>
   frames (state_of (clickRoot sample_lib ''D'' (Hz 220)
            (run sample_lib [ClickButton NotANumber, MediaGranted (Hz 440)]))) =
     [\<lparr>tick_id = 2, tick_root = ''D''\<rparr>] \<and>
   display (state_of (clickRoot sample_lib ''D'' (Hz 220)
            (run sample_lib [ClickButton NotANumber, MediaGranted (Hz 440)]))) =
     (''220.00'', NoteName ''A3'', Some ''sol'') \<and>
   display (ticks sample_lib [NotANumber, Hz 440]
            (state_of (clickRoot sample_lib ''D'' (Hz 220)
              (run sample_lib [ClickButton NotANumber, MediaGranted (Hz 440)])))) =
     (''440.00'', NoteName ''A4'', Some ''sol'')"
proof -
  define s0 where "s0 = run sample_lib [ClickButton NotANumber, MediaGranted (Hz 440)]"
  have r: "running s0" by (simp add: s0_def run_started running_def)
  have c: "''D'' \<noteq> root_note s0" by (simp add: s0_def run_started)
  have n: "nextHandle s0 = 2" by (simp add: s0_def run_started)
  have p1: "publication sample_lib ''D'' (Hz 220) = Some (''220.00'', NoteName ''A3'', Some ''sol'')"
    by (simp add: publication_def in_range_def sample_lib_def solfege_examples)
  have p2: "publication sample_lib ''D'' (Hz 440) = Some (''440.00'', NoteName ''A4'', Some ''sol'')"
    by (simp add: publication_def in_range_def sample_lib_def solfege_examples)
  have p3: "publication sample_lib ''D'' NotANumber = None"
    by (simp add: publication_def)
  have nms: "\<forall>q \<in> set [NotANumber, Hz 440]. named sample_lib q"
    by (simp add: named_examples)
  from root_change_restarts_single_loop [OF r c named_examples(2)] nms
  have f: "frames (state_of (clickRoot sample_lib ''D'' (Hz 220) s0)) =
             [\<lparr>tick_id = nextHandle s0, tick_root = ''D''\<rparr>]"
    and d: "display (state_of (clickRoot sample_lib ''D'' (Hz 220) s0)) =
           (case publication sample_lib ''D'' (Hz 220) of Some d \<Rightarrow> d | None \<Rightarrow> display s0)"
    and l: "display (ticks sample_lib [NotANumber, Hz 440]
                (state_of (clickRoot sample_lib ''D'' (Hz 220) s0))) =
           foldl (\<lambda>d q. case publication sample_lib ''D'' q of Some d' \<Rightarrow> d' | None \<Rightarrow> d)
              (display (state_of (clickRoot sample_lib ''D'' (Hz 220) s0))) [NotANumber, Hz 440]"
    by blast+
  from d p1 have d': "display (state_of (clickRoot sample_lib ''D'' (Hz 220) s0)) =
      (''220.00'', NoteName ''A3'', Some ''sol'')"
    by simp
  from l p2 p3 have l': "display (ticks sample_lib [NotANumber, Hz 440]
      (state_of (clickRoot sample_lib ''D'' (Hz 220) s0))) = (''440.00'', NoteName ''A4'', Some ''sol'')"
    by simp
  from r c f n d' l' show ?thesis unfolding s0_def by simp
qed


lemma run_restarted:
  "run sample_lib [ClickButton NotANumber, MediaGranted (Hz 440), ClickButton NotANumber,
                   ClickRoot ''D'' NotANumber, ClickButton NotANumber] =
     \<lparr>pitch = ''440.00'', note_name = NoteName ''A4'', solfege = getSolfege ''A4'' ''C'',
      root_note = ''D'', started = True, mediaStreamSource = True, requestId = Some 3,
      connected = True,
      frames = [\<lparr>tick_id = 2, tick_root = ''D''\<rparr>, \<lparr>tick_id = 3, tick_root = ''D''\<rparr>],
      nextHandle = 4, pendingMedia = [], mounted = True\<rparr>"
  by (simp add: event_defs loop_defs)

text \<open>
  Claim C3. At most one tick request is ever outstanding, under any sequence of tick
  invocations, root changes and start and stop actions. The run below (start, capture
  granted, stop, change of root to D, start) ends with two callbacks waiting: the effect
  of the root change restarted the loop although the tuner was stopped, and \<open>init\<close>
  called \<open>updatePitch\<close> without \<open>stopLoop\<close>, which cleared the handle of the waiting
  callback and requested another. Both chains go on: two callbacks still wait after two
  more animation frames.
\<close>

theorem C3_two_callbacks_waiting:
  "frames (run sample_lib [ClickButton NotANumber, MediaGranted (Hz 440), ClickButton NotANumber,
                           ClickRoot ''D'' NotANumber, ClickButton NotANumber]) =
     [\<lparr>tick_id = 2, tick_root = ''D''\<rparr>, \<lparr>tick_id = 3, tick_root = ''D''\<rparr>] \<and>
   requestId (run sample_lib [ClickButton NotANumber, MediaGranted (Hz 440), ClickButton NotANumber,
                           ClickRoot ''D'' NotANumber, ClickButton NotANumber]) = Some 3 \<and>
   frames (run sample_lib [ClickButton NotANumber, MediaGranted (Hz 440), ClickButton NotANumber,
                           ClickRoot ''D'' NotANumber, ClickButton NotANumber,
                           AnimationFrame NotANumber, AnimationFrame NotANumber]) =
     [\<lparr>tick_id = 4, tick_root = ''D''\<rparr>, \<lparr>tick_id = 5, tick_root = ''D''\<rparr>]"
  by (simp add: event_defs loop_defs)

text \<open>
  Claim C4. After a change of root while the loop runs, no publication pairs a note with
  the old root. The run below continues the one of claim C3 with a change of root to E
  and one animation frame, the analysis giving 440 Hz both times. \<open>stopLoop\<close> cancels
  the callback \<open>requestId\<close> names, the one with handle 3; the callback with handle 2
  has no handle left and stays. The fresh cycle publishes A4 as fa, its syllable in the
  scale of E; the next animation frame runs the callback bound to D and publishes A4 as
  sol, its syllable in the scale of D, while the root is E; and that callback registers
  itself again.
\<close>

theorem C4_stale_root_published:
  "display (run sample_lib [ClickButton NotANumber, MediaGranted (Hz 440), ClickButton NotANumber,
                            ClickRoot ''D'' NotANumber, ClickButton NotANumber,
                            ClickRoot ''E'' (Hz 440)]) = (''440.00'', NoteName ''A4'', Some ''fa'') \<and>
   frames (run sample_lib [ClickButton NotANumber, MediaGranted (Hz 440), ClickButton NotANumber,
                           ClickRoot ''D'' NotANumber, ClickButton NotANumber,
                           ClickRoot ''E'' (Hz 440)]) =
     [\<lparr>tick_id = 2, tick_root = ''D''\<rparr>, \<lparr>tick_id = 4, tick_root = ''E''\<rparr>] \<and>
   root_note (run sample_lib [ClickButton NotANumber, MediaGranted (Hz 440), ClickButton NotANumber,
                              ClickRoot ''D'' NotANumber, ClickButton NotANumber,
                              ClickRoot ''E'' (Hz 440), AnimationFrame (Hz 440)]) = ''E'' \<and>
   display (run sample_lib [ClickButton NotANumber, MediaGranted (Hz 440), ClickButton NotANumber,
                            ClickRoot ''D'' NotANumber, ClickButton NotANumber,
                            ClickRoot ''E'' (Hz 440), AnimationFrame (Hz 440)]) =
     (''440.00'', NoteName ''A4'', Some ''sol'') \<and>
   frames (run sample_lib [ClickButton NotANumber, MediaGranted (Hz 440), ClickButton NotANumber,
                           ClickRoot ''D'' NotANumber, ClickButton NotANumber,
                           ClickRoot ''E'' (Hz 440), AnimationFrame (Hz 440)]) =
     [\<lparr>tick_id = 4, tick_root = ''E''\<rparr>, \<lparr>tick_id = 5, tick_root = ''D''\<rparr>] \<and>
   getSolfege ''A4'' ''E'' = Some ''fa'' \<and> getSolfege ''A4'' ''D'' = Some ''sol''"
proof -
  have e: "getSolfege ''A4'' ''E'' = Some ''fa''" by code_simp
  have d: "getSolfege ''A4'' ''D'' = Some ''sol''" by code_simp
  show ?thesis by (simp add: event_defs loop_defs display_def e d)
qed

text \<open>
  Claim C8. Stopping cancels any scheduled tick and changes only the started flag. The
  run below continues the one of claim C3 with a click on Stop. \<open>stopAnalysing\<close>
  clears \<open>started\<close>, disconnects the source and cancels the callback with handle 3,
  the one \<open>requestId\<close> names; the callback with handle 2 still waits, and the next
  animation frame runs it and leaves its successor waiting.
\<close>

theorem C8_callback_survives_stop:
  "started (run sample_lib [ClickButton NotANumber, MediaGranted (Hz 440), ClickButton NotANumber,
                            ClickRoot ''D'' NotANumber, ClickButton NotANumber,
                            ClickButton NotANumber]) = False \<and>
   connected (run sample_lib [ClickButton NotANumber, MediaGranted (Hz 440), ClickButton NotANumber,
                              ClickRoot ''D'' NotANumber, ClickButton NotANumber,
                              ClickButton NotANumber]) = False \<and>
   requestId (run sample_lib [ClickButton NotANumber, MediaGranted (Hz 440), ClickButton NotANumber,
                              ClickRoot ''D'' NotANumber, ClickButton NotANumber,
                              ClickButton NotANumber]) = None \<and>
   frames (run sample_lib [ClickButton NotANumber, MediaGranted (Hz 440), ClickButton NotANumber,
                           ClickRoot ''D'' NotANumber, ClickButton NotANumber,
                           ClickButton NotANumber]) = [\<lparr>tick_id = 2, tick_root = ''D''\<rparr>] \<and>
   frames (run sample_lib [ClickButton NotANumber, MediaGranted (Hz 440), ClickButton NotANumber,
                           ClickRoot ''D'' NotANumber, ClickButton NotANumber,
                           ClickButton NotANumber, AnimationFrame NotANumber]) =
     [\<lparr>tick_id = 4, tick_root = ''D''\<rparr>]"
  by (simp add: event_defs loop_defs)

text \<open>
  What \<open>stopAnalysing\<close> does in every state: it cancels the callback \<open>requestId\<close>
  names and clears the handle, requests no callback, disconnects the source from the
  analyser, and of the state cells changes only \<open>started\<close>, to false: pitch, note,
  syllable and root are what they were. Within single flight no callback waits afterwards.
\<close>

lemma stopAnalysing_effect:
  "pitch (stopAnalysing s) = pitch s \<and>
   note_name (stopAnalysing s) = note_name s \<and>
   solfege (stopAnalysing s) = solfege s \<and>
   root_note (stopAnalysing s) = root_note s \<and>
   mediaStreamSource (stopAnalysing s) = mediaStreamSource s \<and>
   \<not> started (stopAnalysing s) \<and>
   (mediaStreamSource s \<longrightarrow> \<not> connected (stopAnalysing s)) \<and>
   \<not> truthy_handle (requestId (stopAnalysing s)) \<and>
   set (frames (stopAnalysing s)) \<subseteq> set (frames s) \<and>
   (truthy_handle (requestId s) \<longrightarrow>
      (\<forall>t \<in> set (frames (stopAnalysing s)). Some (tick_id t) \<noteq> requestId s)) \<and>
   (single_flight s \<longrightarrow> frames (stopAnalysing s) = [])"
proof -
  have fr: "frames (stopAnalysing s) = frames (stopLoop s)"
    by (simp add: stopAnalysing_def Let_def)
  have rq: "requestId (stopAnalysing s) = requestId (stopLoop s)"
    by (simp add: stopAnalysing_def Let_def)
  have kept: "pitch (stopAnalysing s) = pitch s" "note_name (stopAnalysing s) = note_name s"
    "solfege (stopAnalysing s) = solfege s" "root_note (stopAnalysing s) = root_note s"
    "mediaStreamSource (stopAnalysing s) = mediaStreamSource s"
    by (simp_all add: stopAnalysing_def Let_def stopLoop_fields)
  have st: "\<not> started (stopAnalysing s)" by (simp add: stopAnalysing_def Let_def)
  have co: "mediaStreamSource s \<longrightarrow> \<not> connected (stopAnalysing s)"
    by (simp add: stopAnalysing_def Let_def stopLoop_fields)
  have h: "\<not> truthy_handle (requestId (stopAnalysing s))"
    by (simp add: rq requestId_stopLoop)
  have sub: "set (frames (stopAnalysing s)) \<subseteq> set (frames s)"
    by (auto simp: fr frames_stopLoop)
  have gone: "truthy_handle (requestId s) \<longrightarrow>
      (\<forall>t \<in> set (frames (stopAnalysing s)). Some (tick_id t) \<noteq> requestId s)"
    by (simp add: fr frames_stopLoop)
  have none: "single_flight s \<longrightarrow> frames (stopAnalysing s) = []"
    by (simp add: fr frames_stopLoop_single_flight)
  show ?thesis by (intro conjI kept st co h sub gone none)
qed

lemma stopAnalysing_effect_example:
  "single_flight (run sample_lib [ClickButton NotANumber, MediaGranted (Hz 440)]) \<and>
   mediaStreamSource (run sample_lib [ClickButton NotANumber, MediaGranted (Hz 440)]) \<and>
   truthy_handle (requestId (run sample_lib [ClickButton NotANumber, MediaGranted (Hz 440)])) \<and>
   frames (run sample_lib [ClickButton NotANumber, MediaGranted (Hz 440)]) =
     [\<lparr>tick_id = 1, tick_root = ''C''\<rparr>] \<and>
   frames (stopAnalysing (run sample_lib [ClickButton NotANumber, MediaGranted (Hz 440)])) = [] \<and>
   \<not> connected (stopAnalysing (run sample_lib [ClickButton NotANumber, MediaGranted (Hz 440)])) \<and>
   \<not> started (stopAnalysing (run sample_lib [ClickButton NotANumber, MediaGranted (Hz 440)])) \<and>
   display (stopAnalysing (run sample_lib [ClickButton NotANumber, MediaGranted (Hz 440)])) =
     (''440.00'', NoteName ''A4'', Some ''la'')"
proof -
  define s0 where "s0 = run sample_lib [ClickButton NotANumber, MediaGranted (Hz 440)]"
  have sf: "single_flight s0" by (simp add: s0_def run_started single_flight_def)
  have ms: "mediaStreamSource s0" by (simp add: s0_def run_started)
  have th: "truthy_handle (requestId s0)" by (simp add: s0_def run_started truthy_handle_def)
  have f0: "frames s0 = [\<lparr>tick_id = 1, tick_root = ''C''\<rparr>]" by (simp add: s0_def run_started)
  have d0: "display s0 = (''440.00'', NoteName ''A4'', Some ''la'')"
    by (simp add: s0_def run_started display_def solfege_examples)
  from stopAnalysing_effect [of s0] sf ms
  have "frames (stopAnalysing s0) = []" "\<not> connected (stopAnalysing s0)"
    "\<not> started (stopAnalysing s0)" "display (stopAnalysing s0) = display s0"
    by (simp_all add: display_def)
  with sf ms th f0 d0 show ?thesis unfolding s0_def by simp
qed

text \<open>
  Claim C6, as amended. When the pitch class is not in the rotated scale the index is
  not found and \<open>getSolfege\<close> returns \<open>undefined\<close>, by an ordinary return; the tick
  publishes that \<open>undefined\<close> together with the pitch and the note, and returns. A
  syllable is returned only when the pitch class is found, and it is the one at the
  position found.
\<close>

theorem C6_getSolfege_undefined_when_absent:
  "(getSolfege note rootNote = None \<longleftrightarrow> cleanNote note \<notin> set (getChromaticScale rootNote)) \<and>
   (getSolfege note rootNote = Some syl \<longrightarrow>
      (\<exists>i<12. getChromaticScale rootNote ! i = cleanNote note \<and> solfegeSyllables ! i = syl)) \<and>
   (f \<noteq> 0 \<and> - 1 < f \<and> f < 7000 \<and> fromFreq L f = NoteName n \<and>
    cleanNote n \<notin> set (getChromaticScale r) \<longrightarrow>
      (\<exists>s'. updatePitch L r (Hz f) s = Returns s' \<and>
            display s' = (toFixed2 L f, NoteName n, None)))"
proof -
  have a: "getSolfege note rootNote = None \<longleftrightarrow> cleanNote note \<notin> set (getChromaticScale rootNote)"
    using getSolfege_found [of "note" rootNote] getSolfege_absent [of "note" rootNote] by auto
  have b: "getSolfege note rootNote = Some syl \<longrightarrow>
      (\<exists>i<12. getChromaticScale rootNote ! i = cleanNote note \<and> solfegeSyllables ! i = syl)"
  proof
    assume some: "getSolfege note rootNote = Some syl"
    with getSolfege_absent [of "note" rootNote]
    have "cleanNote note \<in> set (getChromaticScale rootNote)" by auto
    from getSolfege_found [OF this] some
    obtain i where "i < 12" "getChromaticScale rootNote ! i = cleanNote note"
      "solfegeSyllables ! i = syl" by auto
    then show "\<exists>i<12. getChromaticScale rootNote ! i = cleanNote note \<and> solfegeSyllables ! i = syl"
      by blast
  qed
  have c: "f \<noteq> 0 \<and> - 1 < f \<and> f < 7000 \<and> fromFreq L f = NoteName n \<and>
    cleanNote n \<notin> set (getChromaticScale r) \<longrightarrow>
      (\<exists>s'. updatePitch L r (Hz f) s = Returns s' \<and>
            display s' = (toFixed2 L f, NoteName n, None))"
    using getSolfege_absent [of n r]
    by (simp add: updatePitch_named_note in_range_def display_def)
  show ?thesis by (intro conjI a b c)
qed

theorem C6_getSolfege_witness:
  "cleanNote ''H2'' \<notin> set (getChromaticScale ''C'') \<and> getSolfege ''H2'' ''C'' = None \<and>
   getSolfege ''Bb2'' ''F'' = Some ''fa'' \<and> getChromaticScale ''F'' ! 5 = cleanNote ''Bb2'' \<and>
   (8.18::real) \<noteq> 0 \<and> - 1 < (8.18::real) \<and> (8.18::real) < 7000 \<and>
   fromFreq sample_lib 8.18 = NoteName ''C-1'' \<and>
   cleanNote ''C-1'' \<notin> set (getChromaticScale ''C'') \<and>
   display (state_of (updatePitch sample_lib ''C'' (Hz 8.18) initial)) =
     (''8.18'', NoteName ''C-1'', None)"
proof -
  have a: "cleanNote ''H2'' \<notin> set (getChromaticScale ''C'')" by code_simp
  have b: "getSolfege ''Bb2'' ''F'' = Some ''fa''" by code_simp
  have c: "getChromaticScale ''F'' ! 5 = cleanNote ''Bb2''" by code_simp
  have d: "cleanNote ''C-1'' \<notin> set (getChromaticScale ''C'')" by code_simp
  have r: "(8.18::real) \<noteq> 0 \<and> - 1 < (8.18::real) \<and> (8.18::real) < 7000" by simp
  have l: "fromFreq sample_lib 8.18 = NoteName ''C-1''" "toFixed2 sample_lib 8.18 = ''8.18''"
    by (simp_all add: sample_lib_def)
  from C6_getSolfege_undefined_when_absent [of "''H2''" "''C''"] a
  have e: "getSolfege ''H2'' ''C'' = None" by blast
  from C6_getSolfege_undefined_when_absent
    [where f = "8.18" and L = sample_lib and n = "''C-1''" and r = "''C''" and s = initial]
    d r l(1)
  obtain s' where "updatePitch sample_lib ''C'' (Hz 8.18) initial = Returns s'"
    "display s' = (toFixed2 sample_lib 8.18, NoteName ''C-1'', None)"
    by blast
  with l(2) have g: "display (state_of (updatePitch sample_lib ''C'' (Hz 8.18) initial)) =
     (''8.18'', NoteName ''C-1'', None)"
    by simp
  from a b c d r l(1) e g show ?thesis by simp
qed

text \<open>
  Claim C6, as stated, fails: for the note C#4 and the root C the index is not found, and
  \<open>getSolfege\<close> returns \<open>undefined\<close> like any other value; nothing in the function
  logs or asserts.
\<close>

theorem C6_counterexample:
  "indexOf (getChromaticScale ''C'') (cleanNote ''C#4'') = - 1 \<and>
   getSolfege ''C#4'' ''C'' = None"
  by code_simp

text \<open>
  Claim C7. Whenever the root-mean-square amplitude of a frame is below the silence
  threshold the estimator returns "undetected", whatever the later steps would compute;
  this includes every frame of zeros, the threshold being positive.
\<close>

theorem C7_estimate_silence_undetected:
  "(frame \<noteq> [] \<longrightarrow> rms frame < threshold \<longrightarrow>
      estimate_pitch threshold steps_2_to_7 frame sampleRate = None) \<and>
   (0 < n \<longrightarrow> 0 < threshold \<longrightarrow>
      estimate_pitch threshold steps_2_to_7 (replicate n 0) sampleRate = None)"
proof -
  have "sum_list (map (\<lambda>x. x * x) (replicate n (0::real))) = 0"
    by (induction n) simp_all
  then have "rms (replicate n 0) = 0" by (simp add: rms_def)
  then show ?thesis by (simp add: estimate_pitch_def)
qed

theorem C7_estimate_silence_witness:
  "[1 / 1000, - (1 / 1000)] \<noteq> ([]::real list) \<and>
   rms [1 / 1000, - (1 / 1000)] < 1 / 100 \<and>
   estimate_pitch (1 / 100) (\<lambda>frame sampleRate. Some 440) [1 / 1000, - (1 / 1000)] 44100 = None \<and>
   (0::nat) < 2048 \<and> (0::real) < 1 / 100 \<and>
   estimate_pitch (1 / 100) (\<lambda>frame sampleRate. Some 440) (replicate 2048 0) 44100 = None"
proof -
  have "sqrt (1 / 1000000) = 1 / 1000"
    by (rule real_sqrt_unique) (simp_all add: power2_eq_square)
  then have q: "rms [1 / 1000, - (1 / 1000)] < 1 / 100" by (simp add: rms_def)
  have ne: "[1 / 1000, - (1 / 1000)] \<noteq> ([]::real list)" by simp
  have n: "(0::nat) < 2048" by simp
  have t: "(0::real) < 1 / 100" by simp
  from C7_estimate_silence_undetected
    [of "[1 / 1000, - (1 / 1000)]" "1 / 100" "\<lambda>frame sampleRate. Some 440" 44100 2048] ne q n t
  show ?thesis by blast
qed

end
